theory Spec2Isabelle
  imports Complex_Main
begin

section \<open>The position manager of the squirrel master\<close>

text \<open>
  The development embeds the \<^verbatim>\<open>PositionManager\<close> with address indirection and
  disabled-node checks (the variant whose \<^verbatim>\<open>Get\<close> and \<^verbatim>\<open>Set\<close> return an error).
  One call runs at a time, so a mutex taken at the start of a method and released by its
  \<^verbatim>\<open>defer\<close> leaves no trace; of the mutexes only the slice \<^verbatim>\<open>mu\<close> is kept, because
  indexing it can panic.
\<close>

subsection \<open>Data\<close>

text \<open>
  Go's \<^verbatim>\<open>int\<close> is modelled by \<^typ>\<open>int\<close>: the code compares indices and counts up to a
  slice length, and never computes with them.
\<close>

text \<open>
  A \<^verbatim>\<open>float64\<close> is a finite value, an infinity or NaN. A finite value is written as
  the real number it denotes; the two zeros are one value, as they are under Go's
  \<^verbatim>\<open>==\<close>, and so are all NaNs. Reals that no \<^verbatim>\<open>float64\<close> denotes are not excluded:
  the manager only stores and copies coordinates.
\<close>

datatype float64 = Finite real | PosInf | NegInf | NaN

text \<open>
  The arithmetic of \<^verbatim>\<open>float64\<close> and the functions \<^verbatim>\<open>math.Pow\<close> and \<^verbatim>\<open>math.Sqrt\<close>
  belong to Go and its library, not to the repository. They round, overflow to an
  infinity and yield NaN; nothing of that is fixed here. The four operations that the
  code uses are a parameter of \<^verbatim>\<open>Distance\<close>: subtraction, addition, \<^verbatim>\<open>math.Pow\<close>
  and \<^verbatim>\<open>math.Sqrt\<close>.
\<close>

record float64_arith =
  sub64 :: "float64 \<Rightarrow> float64 \<Rightarrow> float64"
  add64 :: "float64 \<Rightarrow> float64 \<Rightarrow> float64"
  math_Pow :: "float64 \<Rightarrow> float64 \<Rightarrow> float64"
  math_Sqrt :: "float64 \<Rightarrow> float64"

text \<open>
  Modelled from the spec: the struct \<^verbatim>\<open>squirrel.Position\<close> is declared outside the
  files at hand. It is a triple of floating-point coordinates; the field names and their
  order are those the code uses (\<^verbatim>\<open>X\<close>, \<^verbatim>\<open>Y\<close>, \<^verbatim>\<open>Height\<close>).
\<close>

record Position =
  X :: float64
  Y :: float64
  Height :: float64

datatype RWMutex = RWMutex

text \<open>A channel is known by its identity; the same channel may be registered twice.\<close>

type_synonym chan = nat

text \<open>
  Modelled from the spec: the type \<^verbatim>\<open>addressReverse\<close> is declared outside the files at
  hand. Its method \<^verbatim>\<open>GetS\<close> resolves a hardware address to an index and a flag that
  says whether the address is known.
\<close>

record addressReverse =
  GetS :: "string \<Rightarrow> int \<times> bool"

record PositionManager =
  pos :: "Position list"
  mu :: "RWMutex list"
  isEnabled :: "bool list"
  enabledChanged :: "chan list"
  addrReverse :: "addressReverse option"

text \<open>
  The three errors built with \<^verbatim>\<open>fmt.Errorf\<close>, each with the values its message
  prints: the index and the capacity, the index, the hardware address.
\<close>

datatype error =
    IndexOutOfRange int int
  | NodeDisabled int
  | AddressNotFound string

text \<open>A run-time panic ends the call without a result.\<close>

datatype panic = IndexPanic | NilDereference | MakeSliceLen

datatype 'a outcome = Panic panic | Return 'a

text \<open>Indexing a slice: Go panics below zero and at or beyond the length.\<close>

definition slice_at :: "'a list \<Rightarrow> int \<Rightarrow> 'a outcome" where
  "slice_at xs i = (if 0 \<le> i \<and> i < int (length xs) then Return (xs ! nat i) else Panic IndexPanic)"

definition zeroPosition :: Position where
  "zeroPosition = \<lparr>X = Finite 0, Y = Finite 0, Height = Finite 0\<rparr>"

definition MaxFloat64 :: float64 where
  "MaxFloat64 = Finite ((2 ^ 53 - 1) * 2 ^ 971)"

subsection \<open>Construction\<close>

text \<open>\<^verbatim>\<open>make\<close> panics on a negative length; every slot starts at the origin, disabled.\<close>

definition NewPositionManager :: "int \<Rightarrow> addressReverse option \<Rightarrow> PositionManager outcome" where
  "NewPositionManager size' ar =
     (if size' < 0 then Panic MakeSliceLen
      else Return \<lparr>pos = replicate (nat size') \<lparr>X = Finite 0, Y = Finite 0, Height = Finite 0\<rparr>,
                   mu = replicate (nat size') RWMutex,
                   isEnabled = replicate (nat size') False,
                   enabledChanged = [],
                   addrReverse = ar\<rparr>)"

definition Capacity :: "PositionManager \<Rightarrow> int" where
  "Capacity p = int (length (pos p))"

subsection \<open>Reading and writing positions\<close>

text \<open>
  \<^verbatim>\<open>Get\<close> has named results: on an error the position returned is the zero value.
  It assigns to nothing in the manager, so the model returns no new state.
\<close>

definition Get :: "PositionManager \<Rightarrow> int \<Rightarrow> (Position \<times> error option) outcome" where
  "Get p index =
     (if index \<ge> int (length (pos p))
      then Return (zeroPosition, Some (IndexOutOfRange index (int (length (pos p)))))
      else case slice_at (mu p) index of
             Panic k \<Rightarrow> Panic k
           | Return _ \<Rightarrow>
               (case slice_at (isEnabled p) index of
                  Panic k \<Rightarrow> Panic k
                | Return en \<Rightarrow>
                    if \<not> en then Return (zeroPosition, Some (NodeDisabled index))
                    else (case slice_at (pos p) index of
                            Panic k \<Rightarrow> Panic k
                          | Return q \<Rightarrow> Return (q, None))))"

text \<open>
  \<^verbatim>\<open>Set\<close> writes the three fields of the slot's own \<^verbatim>\<open>Position\<close>; every slot
  points to an allocation of its own, so no other slot changes. The debug log line is
  output only and is left out.
\<close>

definition Set :: "PositionManager \<Rightarrow> int \<Rightarrow> float64 \<Rightarrow> float64 \<Rightarrow> float64
    \<Rightarrow> (PositionManager \<times> error option) outcome" where
  "Set p index x y height =
     (if index \<ge> int (length (pos p))
      then Return (p, Some (IndexOutOfRange index (int (length (pos p)))))
      else case slice_at (mu p) index of
             Panic k \<Rightarrow> Panic k
           | Return _ \<Rightarrow>
               (case slice_at (isEnabled p) index of
                  Panic k \<Rightarrow> Panic k
                | Return en \<Rightarrow>
                    if \<not> en then Return (p, Some (NodeDisabled index))
                    else (case slice_at (pos p) index of
                            Panic k \<Rightarrow> Panic k
                          | Return q \<Rightarrow>
                              Return (p\<lparr>pos := (pos p)[nat index := q\<lparr>X := x, Y := y, Height := height\<rparr>]\<rparr>,
                                      None))))"

text \<open>
  \<^verbatim>\<open>SetPosition\<close> takes a pointer, \<open>None\<close> for nil. It calls \<^verbatim>\<open>Set\<close> without keeping
  what \<^verbatim>\<open>Set\<close> returns, and returns its own \<^verbatim>\<open>err\<close>, which nothing assigned.
\<close>

definition SetPosition :: "PositionManager \<Rightarrow> int \<Rightarrow> Position option
    \<Rightarrow> (PositionManager \<times> error option) outcome" where
  "SetPosition p index ptr =
     (case ptr of
        None \<Rightarrow> Panic NilDereference
      | Some q \<Rightarrow>
          (case Set p index (X q) (Y q) (Height q) of
             Panic k \<Rightarrow> Panic k
           | Return (p', _) \<Rightarrow> Return (p', None)))"

subsection \<open>Distance\<close>

text \<open>
  The two positions are read one after the other; an error of either read gives the
  sentinel. Otherwise the result is the expression of the source, operation for
  operation in the arithmetic \<open>m\<close>, the sum taken from the left.
\<close>

definition Distance :: "float64_arith \<Rightarrow> PositionManager \<Rightarrow> int \<Rightarrow> int \<Rightarrow> float64 outcome" where
  "Distance m p index1 index2 =
     (case Get p index1 of
        Panic k \<Rightarrow> Panic k
      | Return (pos1, err1) \<Rightarrow>
          (case Get p index2 of
             Panic k \<Rightarrow> Panic k
           | Return (pos2, err2) \<Rightarrow>
               if err1 \<noteq> None \<or> err2 \<noteq> None then Return MaxFloat64
               else Return
                 (math_Sqrt m
                    (add64 m
                       (add64 m
                          (math_Pow m (sub64 m (X pos1) (X pos2)) (Finite 2))
                          (math_Pow m (sub64 m (Y pos1) (Y pos2)) (Finite 2)))
                       (math_Pow m (sub64 m (Height pos1) (Height pos2)) (Finite 2))))))"

subsection \<open>Access by hardware address\<close>

text \<open>
  Without a resolver the operations by address are unavailable: a nil \<^verbatim>\<open>addrReverse\<close>
  is taken to panic when \<^verbatim>\<open>GetS\<close> is called on it.
\<close>

definition GetAddr :: "PositionManager \<Rightarrow> string \<Rightarrow> (Position \<times> error option) outcome" where
  "GetAddr p hardAddr =
     (case addrReverse p of
        None \<Rightarrow> Panic NilDereference
      | Some r \<Rightarrow>
          (case GetS r hardAddr of
             (id', ok) \<Rightarrow>
               if \<not> ok then Return (zeroPosition, Some (AddressNotFound hardAddr))
               else Get p id'))"

definition SetAddr :: "PositionManager \<Rightarrow> string \<Rightarrow> float64 \<Rightarrow> float64 \<Rightarrow> float64
    \<Rightarrow> (PositionManager \<times> error option) outcome" where
  "SetAddr p hardAddr x y height =
     (case addrReverse p of
        None \<Rightarrow> Panic NilDereference
      | Some r \<Rightarrow>
          (case GetS r hardAddr of
             (id', ok) \<Rightarrow>
               if \<not> ok then Return (p, Some (AddressNotFound hardAddr))
               else (case Set p id' x y height of
                       Panic k \<Rightarrow> Panic k
                     | Return (p', _) \<Rightarrow> Return (p', None))))"

definition SetPositionAddr :: "PositionManager \<Rightarrow> string \<Rightarrow> Position option
    \<Rightarrow> (PositionManager \<times> error option) outcome" where
  "SetPositionAddr p hardAddr ptr =
     (case addrReverse p of
        None \<Rightarrow> Panic NilDereference
      | Some r \<Rightarrow>
          (case GetS r hardAddr of
             (id', ok) \<Rightarrow>
               if \<not> ok then Return (p, Some (AddressNotFound hardAddr))
               else (case SetPosition p id' ptr of
                       Panic k \<Rightarrow> Panic k
                     | Return (p', _) \<Rightarrow> Return (p', None))))"

subsection \<open>Membership and notification\<close>

text \<open>
  The loop of \<^verbatim>\<open>calculateEnabled\<close>: \<open>i\<close> is the index of the head of what is left of
  \<^verbatim>\<open>isEnabled\<close>, \<open>e\<close> the slice built so far.
\<close>

fun calculateEnabled_loop :: "int \<Rightarrow> bool list \<Rightarrow> int list \<Rightarrow> int list" where
  "calculateEnabled_loop i [] e = e"
| "calculateEnabled_loop i (v # vs) e =
     calculateEnabled_loop (i + 1) vs (if v then e @ [i] else e)"

definition calculateEnabled :: "PositionManager \<Rightarrow> int list" where
  "calculateEnabled p = calculateEnabled_loop 0 (isEnabled p) []"

definition Enabled :: "PositionManager \<Rightarrow> int list" where
  "Enabled p = calculateEnabled p"

text \<open>
  \<^verbatim>\<open>notifyEnabledChanged\<close> sends the list to each registered channel in registration
  order. The result is the sequence of sends, each a channel and the slice sent; a send
  is taken to be accepted by its receiver.
\<close>

definition notifyEnabledChanged :: "PositionManager \<Rightarrow> (chan \<times> int list) list" where
  "notifyEnabledChanged p = map (\<lambda>c. (c, calculateEnabled p)) (enabledChanged p)"

text \<open>
  \<^verbatim>\<open>Enable\<close> and \<^verbatim>\<open>Disable\<close> assign to \<^verbatim>\<open>isEnabled[index]\<close> with no check of their
  own: the assignment panics outside the slice. They return the new state and the sends.
\<close>

definition Enable :: "PositionManager \<Rightarrow> int \<Rightarrow> (PositionManager \<times> (chan \<times> int list) list) outcome" where
  "Enable p index =
     (case slice_at (isEnabled p) index of
        Panic k \<Rightarrow> Panic k
      | Return _ \<Rightarrow>
          (let p' = p\<lparr>isEnabled := (isEnabled p)[nat index := True]\<rparr>
           in Return (p', notifyEnabledChanged p')))"

definition Disable :: "PositionManager \<Rightarrow> int \<Rightarrow> (PositionManager \<times> (chan \<times> int list) list) outcome" where
  "Disable p index =
     (case slice_at (isEnabled p) index of
        Panic k \<Rightarrow> Panic k
      | Return _ \<Rightarrow>
          (let p' = p\<lparr>isEnabled := (isEnabled p)[nat index := False]\<rparr>
           in Return (p', notifyEnabledChanged p')))"

definition IsEnabled :: "PositionManager \<Rightarrow> int \<Rightarrow> bool outcome" where
  "IsEnabled p index = slice_at (isEnabled p) index"

definition RegisterEnabledChanged :: "PositionManager \<Rightarrow> chan \<Rightarrow> PositionManager" where
  "RegisterEnabledChanged p channel = p\<lparr>enabledChanged := enabledChanged p @ [channel]\<rparr>"

subsection \<open>The shape every manager keeps\<close>

text \<open>
  The three slices are made with one length and no method changes a length.
\<close>

definition consistent :: "PositionManager \<Rightarrow> bool" where
  "consistent p = (length (mu p) = length (pos p) \<and> length (isEnabled p) = length (pos p))"

text \<open>Every manager that the constructor and the methods can produce.\<close>

inductive reachable :: "PositionManager \<Rightarrow> bool" where
  new: "NewPositionManager n ar = Return p \<Longrightarrow> reachable p"
| set: "reachable p \<Longrightarrow> Set p i x y h = Return (p', e) \<Longrightarrow> reachable p'"
| set_position: "reachable p \<Longrightarrow> SetPosition p i ptr = Return (p', e) \<Longrightarrow> reachable p'"
| set_addr: "reachable p \<Longrightarrow> SetAddr p a x y h = Return (p', e) \<Longrightarrow> reachable p'"
| set_position_addr: "reachable p \<Longrightarrow> SetPositionAddr p a ptr = Return (p', e) \<Longrightarrow> reachable p'"
| enable: "reachable p \<Longrightarrow> Enable p i = Return (p', s) \<Longrightarrow> reachable p'"
| disable: "reachable p \<Longrightarrow> Disable p i = Return (p', s) \<Longrightarrow> reachable p'"
| register: "reachable p \<Longrightarrow> reachable (RegisterEnabledChanged p c)"

subsection \<open>Concrete managers\<close>

text \<open>What \<^verbatim>\<open>NewPositionManager\<close> returns for \<open>n\<close> slots.\<close>

definition fresh_manager :: "nat \<Rightarrow> addressReverse option \<Rightarrow> PositionManager" where
  "fresh_manager n ar =
     \<lparr>pos = replicate n \<lparr>X = Finite 0, Y = Finite 0, Height = Finite 0\<rparr>,
      mu = replicate n RWMutex,
      isEnabled = replicate n False,
      enabledChanged = [],
      addrReverse = ar\<rparr>"

text \<open>A resolver that knows the one address \<open>''a''\<close>, of node 0.\<close>

definition one_address :: addressReverse where
  "one_address = \<lparr>GetS = (\<lambda>s. if s = ''a'' then (0, True) else (0, False))\<rparr>"

text \<open>
  The concrete calls of \<^verbatim>\<open>Distance\<close> below need some arithmetic to be closed terms.
  None of them reaches an operation, so the one whose operations all return NaN serves.
\<close>

definition nan_arith :: float64_arith where
  "nan_arith =
     \<lparr>sub64 = (\<lambda>a b. NaN), add64 = (\<lambda>a b. NaN),
      math_Pow = (\<lambda>a b. NaN), math_Sqrt = (\<lambda>a. NaN)\<rparr>"

text \<open>Four nodes of which node 3 is enabled, and two subscribers.\<close>

definition three_of_four :: PositionManager where
  "three_of_four =
     \<lparr>pos = replicate 4 \<lparr>X = Finite 0, Y = Finite 0, Height = Finite 0\<rparr>,
      mu = replicate 4 RWMutex,
      isEnabled = [False, False, False, True],
      enabledChanged = [7, 9],
      addrReverse = None\<rparr>"

section \<open>Properties\<close>

subsection \<open>Slices and the shape of a manager\<close>

lemma slice_at_in: "0 \<le> i \<Longrightarrow> i < int (length xs) \<Longrightarrow> slice_at xs i = Return (xs ! nat i)"
  by (simp add: slice_at_def)

lemma slice_at_out: "i < 0 \<or> int (length xs) \<le> i \<Longrightarrow> slice_at xs i = Panic IndexPanic"
  by (auto simp add: slice_at_def)

lemma consistent_New: "NewPositionManager n ar = Return p \<Longrightarrow> consistent p"
  by (auto simp add: NewPositionManager_def consistent_def split: if_splits)

lemma consistent_Set: "consistent p \<Longrightarrow> Set p i x y h = Return (p', e) \<Longrightarrow> consistent p'"
  by (auto simp add: Set_def consistent_def split: if_splits outcome.splits)

lemma consistent_Enable: "consistent p \<Longrightarrow> Enable p i = Return (p', s) \<Longrightarrow> consistent p'"
  by (auto simp add: Enable_def consistent_def Let_def split: outcome.splits)

lemma consistent_Disable: "consistent p \<Longrightarrow> Disable p i = Return (p', s) \<Longrightarrow> consistent p'"
  by (auto simp add: Disable_def consistent_def Let_def split: outcome.splits)

lemma consistent_Register: "consistent p \<Longrightarrow> consistent (RegisterEnabledChanged p c)"
  by (simp add: RegisterEnabledChanged_def consistent_def)

lemma consistent_SetPosition:
  "consistent p \<Longrightarrow> SetPosition p i ptr = Return (p', e) \<Longrightarrow> consistent p'"
  by (auto simp add: SetPosition_def split: option.splits outcome.splits dest: consistent_Set)

lemma consistent_SetAddr:
  "consistent p \<Longrightarrow> SetAddr p a x y h = Return (p', e) \<Longrightarrow> consistent p'"
  by (auto simp add: SetAddr_def split: option.splits outcome.splits prod.splits if_splits
      dest: consistent_Set)

lemma consistent_SetPositionAddr:
  "consistent p \<Longrightarrow> SetPositionAddr p a ptr = Return (p', e) \<Longrightarrow> consistent p'"
  by (auto simp add: SetPositionAddr_def split: option.splits outcome.splits prod.splits if_splits
      dest: consistent_SetPosition)

text \<open>The three slices of a manager built through the interface have one length.\<close>

lemma reachable_consistent: "reachable p \<Longrightarrow> consistent p"
proof (induction rule: reachable.induct)
  case (new n ar p)
  then show ?case by (rule consistent_New)
next
  case (set p i x y h p' e)
  then show ?case by (blast intro: consistent_Set)
next
  case (set_position p i ptr p' e)
  then show ?case by (blast intro: consistent_SetPosition)
next
  case (set_addr p a x y h p' e)
  then show ?case by (blast intro: consistent_SetAddr)
next
  case (set_position_addr p a ptr p' e)
  then show ?case by (blast intro: consistent_SetPositionAddr)
next
  case (enable p i p' s)
  then show ?case by (blast intro: consistent_Enable)
next
  case (disable p i p' s)
  then show ?case by (blast intro: consistent_Disable)
next
  case (register p c)
  then show ?case by (simp add: consistent_Register)
qed

lemma New_fresh: "NewPositionManager (int n) ar = Return (fresh_manager n ar)"
  by (simp add: NewPositionManager_def fresh_manager_def)

lemma consistent_fresh: "consistent (fresh_manager n ar)"
  by (simp add: consistent_def fresh_manager_def)

lemma Capacity_fresh: "Capacity (fresh_manager n ar) = int n"
  by (simp add: Capacity_def fresh_manager_def)

subsection \<open>The three results of Get and Set on a non-negative index\<close>

lemma Get_cases:
  assumes "consistent p" and "0 \<le> i"
  shows "Get p i =
           (if Capacity p \<le> i then Return (zeroPosition, Some (IndexOutOfRange i (Capacity p)))
            else if \<not> isEnabled p ! nat i then Return (zeroPosition, Some (NodeDisabled i))
            else Return (pos p ! nat i, None))"
  using assms by (simp add: Get_def consistent_def Capacity_def slice_at_def)

lemma Set_cases:
  assumes "consistent p" and "0 \<le> i"
  shows "Set p i x y h =
           (if Capacity p \<le> i then Return (p, Some (IndexOutOfRange i (Capacity p)))
            else if \<not> isEnabled p ! nat i then Return (p, Some (NodeDisabled i))
            else Return (p\<lparr>pos := (pos p)[nat i := (pos p ! nat i)\<lparr>X := x, Y := y, Height := h\<rparr>]\<rparr>,
                         None))"
  using assms by (simp add: Set_def consistent_def Capacity_def slice_at_def)

lemma Get_enabled:
  "consistent p \<Longrightarrow> 0 \<le> i \<Longrightarrow> i < Capacity p \<Longrightarrow> isEnabled p ! nat i
     \<Longrightarrow> Get p i = Return (pos p ! nat i, None)"
  by (simp add: Get_cases)

lemma Get_disabled:
  "consistent p \<Longrightarrow> 0 \<le> i \<Longrightarrow> i < Capacity p \<Longrightarrow> \<not> isEnabled p ! nat i
     \<Longrightarrow> Get p i = Return (zeroPosition, Some (NodeDisabled i))"
  by (simp add: Get_cases)

subsection \<open>The list of enabled nodes\<close>

lemma calculateEnabled_loop_sorted:
  "sorted_wrt (<) e \<Longrightarrow> \<forall>x\<in>set e. x < i \<Longrightarrow> sorted_wrt (<) (calculateEnabled_loop i vs e)"
proof (induction vs arbitrary: i e)
  case Nil
  then show ?case by simp
next
  case (Cons v vs)
  have "sorted_wrt (<) (if v then e @ [i] else e)"
    using Cons.prems by (simp add: sorted_wrt_append)
  moreover have "\<forall>x\<in>set (if v then e @ [i] else e). x < i + 1"
    using Cons.prems by auto
  ultimately show ?case using Cons.IH by simp
qed

lemma calculateEnabled_sorted: "sorted_wrt (<) (calculateEnabled p)"
  by (simp add: calculateEnabled_def calculateEnabled_loop_sorted)

lemma in_calculateEnabled_loop:
  "x \<in> set (calculateEnabled_loop i vs e) \<longleftrightarrow>
     x \<in> set e \<or> (i \<le> x \<and> x < i + int (length vs) \<and> vs ! nat (x - i))"
proof (induction vs arbitrary: i e)
  case Nil
  then show ?case by auto
next
  case (Cons v vs)
  show ?case
  proof (cases "x = i")
    case True
    with Cons.IH [of "i + 1" "if v then e @ [i] else e"] show ?thesis by auto
  next
    case False
    have "i < x \<Longrightarrow> nat (x - i) = Suc (nat (x - (i + 1)))" by simp
    then have "i < x \<Longrightarrow> (v # vs) ! nat (x - i) = vs ! nat (x - (i + 1))" by simp
    with False Cons.IH [of "i + 1" "if v then e @ [i] else e"] show ?thesis by auto
  qed
qed

text \<open>The list holds exactly the indices whose flag is set.\<close>

lemma set_calculateEnabled:
  "set (calculateEnabled p) = {i. 0 \<le> i \<and> i < int (length (isEnabled p)) \<and> isEnabled p ! nat i}"
  by (auto simp add: calculateEnabled_def in_calculateEnabled_loop)

lemma calculateEnabled_loop_all_False:
  "calculateEnabled_loop i (replicate k False) e = e"
  by (induction k arbitrary: i) simp_all

lemma calculateEnabled_only_3:
  "calculateEnabled_loop 0 ((False # False # False # False # replicate k False)[nat 3 := True]) [] = [3]"
proof -
  have "nat 3 = Suc (Suc (Suc 0))" by simp
  then show ?thesis by (simp add: calculateEnabled_loop_all_False)
qed

lemma calculateEnabled_1_and_3:
  "calculateEnabled_loop 0
     ((False # False # False # False # replicate k False)[nat 3 := True, nat 1 := True]) [] = [1, 3]"
proof -
  have "nat 3 = Suc (Suc (Suc 0))" by simp
  then show ?thesis by (simp add: calculateEnabled_loop_all_False)
qed

lemma foldl_Register:
  "foldl RegisterEnabledChanged p cs = p\<lparr>enabledChanged := enabledChanged p @ cs\<rparr>"
  by (induction cs arbitrary: p) (simp_all add: RegisterEnabledChanged_def)

lemma four_le: "4 \<le> (s::int) \<Longrightarrow> \<exists>k. nat s = Suc (Suc (Suc (Suc k)))"
proof -
  assume "4 \<le> s"
  then have "nat s = Suc (Suc (Suc (Suc (nat s - 4))))" by simp
  then show ?thesis ..
qed

subsection \<open>Access by address: what holds\<close>

lemma GetAddr_not_found:
  "addrReverse p = Some r \<Longrightarrow> \<not> snd (GetS r a)
     \<Longrightarrow> GetAddr p a = Return (zeroPosition, Some (AddressNotFound a))"
  by (auto simp add: GetAddr_def split: prod.splits)

lemma SetAddr_not_found:
  "addrReverse p = Some r \<Longrightarrow> \<not> snd (GetS r a)
     \<Longrightarrow> SetAddr p a x y h = Return (p, Some (AddressNotFound a))"
  by (auto simp add: SetAddr_def split: prod.splits)

lemma SetPositionAddr_not_found:
  "addrReverse p = Some r \<Longrightarrow> \<not> snd (GetS r a)
     \<Longrightarrow> SetPositionAddr p a ptr = Return (p, Some (AddressNotFound a))"
  by (auto simp add: SetPositionAddr_def split: prod.splits)

lemma GetAddr_forwards:
  "addrReverse p = Some r \<Longrightarrow> GetS r a = (i, True) \<Longrightarrow> GetAddr p a = Get p i"
  by (simp add: GetAddr_def)

text \<open>Once the address is resolved, neither setter can return an error.\<close>

lemma SetAddr_resolved_no_error:
  "addrReverse p = Some r \<Longrightarrow> GetS r a = (i, True) \<Longrightarrow> SetAddr p a x y h \<noteq> Return (p', Some e)"
  by (auto simp add: SetAddr_def split: outcome.splits)

lemma SetPositionAddr_resolved_no_error:
  "addrReverse p = Some r \<Longrightarrow> GetS r a = (i, True)
     \<Longrightarrow> SetPositionAddr p a ptr \<noteq> Return (p', Some e)"
  by (auto simp add: SetPositionAddr_def split: outcome.splits)

section \<open>The claims\<close>

text \<open>
  Claim C1. In a freshly constructed manager every slot is disabled and at \<open>(0, 0, 0)\<close>:
  for every valid index \<open>i\<close>, \<^verbatim>\<open>Get(i)\<close> returns the error for a disabled node, and
  after \<^verbatim>\<open>Enable(i)\<close>, \<^verbatim>\<open>Get(i)\<close> returns the position \<open>(0, 0, 0)\<close> and no error.
\<close>

theorem fresh_Get_disabled_then_Enable_Get:
  assumes "NewPositionManager size' ar = Return p" and "0 \<le> i" and "i < Capacity p"
  shows "Get p i = Return (zeroPosition, Some (NodeDisabled i)) \<and>
         (case Enable p i of
            Panic k \<Rightarrow> False
          | Return (p', sends) \<Rightarrow> Get p' i = Return (\<lparr>X = Finite 0, Y = Finite 0, Height = Finite 0\<rparr>, None))"
proof -
  from assms(1) have c: "consistent p" by (rule consistent_New)
  from assms(1) have en: "isEnabled p = replicate (nat size') False"
    and ps: "pos p = replicate (nat size') \<lparr>X = Finite 0, Y = Finite 0, Height = Finite 0\<rparr>"
    by (auto simp add: NewPositionManager_def split: if_splits)
  from assms(3) ps have lt: "nat i < nat size'"
    using assms(2) by (auto simp add: Capacity_def split: if_splits)
  have "\<not> isEnabled p ! nat i" using en lt by simp
  with c assms(2,3) have g: "Get p i = Return (zeroPosition, Some (NodeDisabled i))"
    by (simp add: Get_disabled)
  define p' where "p' = p\<lparr>isEnabled := (isEnabled p)[nat i := True]\<rparr>"
  have len: "i < int (length (isEnabled p))"
    using c assms(3) by (simp add: consistent_def Capacity_def)
  have e: "Enable p i = Return (p', notifyEnabledChanged p')"
    using assms(2) len by (simp add: Enable_def slice_at_in p'_def Let_def)
  have c': "consistent p'" using c by (simp add: p'_def consistent_def)
  have "Get p' i = Return (pos p' ! nat i, None)"
    using c' assms(2,3) len by (intro Get_enabled) (simp_all add: p'_def Capacity_def)
  moreover have "pos p' ! nat i = \<lparr>X = Finite 0, Y = Finite 0, Height = Finite 0\<rparr>"
    using ps lt by (simp add: p'_def)
  ultimately show ?thesis using g e by simp
qed

theorem fresh_Get_disabled_then_Enable_Get_witness:
  "NewPositionManager 2 None = Return (fresh_manager 2 None) \<and>
   (0::int) \<le> 1 \<and> 1 < Capacity (fresh_manager 2 None) \<and>
   Get (fresh_manager 2 None) 1 = Return (zeroPosition, Some (NodeDisabled 1)) \<and>
   (case Enable (fresh_manager 2 None) 1 of
      Panic k \<Rightarrow> False
    | Return (p', sends) \<Rightarrow> Get p' 1 = Return (\<lparr>X = Finite 0, Y = Finite 0, Height = Finite 0\<rparr>, None))"
proof -
  have h1: "NewPositionManager 2 None = Return (fresh_manager 2 None)"
    using New_fresh [of 2 None] by simp
  have h2: "(0::int) \<le> 1" by simp
  have h3: "1 < Capacity (fresh_manager 2 None)" by (simp add: Capacity_fresh)
  from fresh_Get_disabled_then_Enable_Get [OF h1 h2 h3] h1 h2 h3 show ?thesis by simp
qed

text \<open>
  Claim C2. Round trip: for every valid index \<open>i\<close> and coordinates \<open>x\<close>, \<open>y\<close>, \<open>h\<close>,
  after \<^verbatim>\<open>Enable(i)\<close> and then \<^verbatim>\<open>Set(i, x, y, h)\<close>, \<^verbatim>\<open>Get(i)\<close> succeeds and returns
  exactly \<open>(x, y, h)\<close>.
\<close>

theorem Enable_Set_Get_roundtrip:
  assumes "consistent p" and "0 \<le> i" and "i < Capacity p"
  shows "case Enable p i of
           Panic k \<Rightarrow> False
         | Return (p1, sends) \<Rightarrow>
             (case Set p1 i x y h of
                Panic k \<Rightarrow> False
              | Return (p2, err) \<Rightarrow>
                  err = None \<and> Get p2 i = Return (\<lparr>X = x, Y = y, Height = h\<rparr>, None))"
proof -
  define p1 where "p1 = p\<lparr>isEnabled := (isEnabled p)[nat i := True]\<rparr>"
  define p2 where
    "p2 = p1\<lparr>pos := (pos p1)[nat i := (pos p1 ! nat i)\<lparr>X := x, Y := y, Height := h\<rparr>]\<rparr>"
  have len: "i < int (length (isEnabled p))" "i < int (length (mu p))" "i < int (length (pos p))"
    using assms(1,3) by (simp_all add: consistent_def Capacity_def)
  have e: "Enable p i = Return (p1, notifyEnabledChanged p1)"
    using assms(2) len by (simp add: Enable_def slice_at_in p1_def Let_def)
  have s: "Set p1 i x y h = Return (p2, None)"
    using assms(2) len by (simp add: Set_def slice_at_in p1_def p2_def)
  have c2: "consistent p2" using assms(1) by (simp add: p1_def p2_def consistent_def)
  have "Get p2 i = Return (pos p2 ! nat i, None)"
    using c2 assms(2) len by (intro Get_enabled) (simp_all add: p1_def p2_def Capacity_def)
  moreover have "pos p2 ! nat i = \<lparr>X = x, Y = y, Height = h\<rparr>"
    using len assms(2) by (simp add: p1_def p2_def)
  ultimately show ?thesis using e s by simp
qed

theorem Enable_Set_Get_roundtrip_witness:
  "consistent (fresh_manager 2 None) \<and> (0::int) \<le> 1 \<and> 1 < Capacity (fresh_manager 2 None) \<and>
   (case Enable (fresh_manager 2 None) 1 of
      Panic k \<Rightarrow> False
    | Return (p1, sends) \<Rightarrow>
        (case Set p1 1 (Finite 3) (Finite 4) (Finite 12) of
           Panic k \<Rightarrow> False
         | Return (p2, err) \<Rightarrow>
             err = None \<and> Get p2 1 = Return (\<lparr>X = Finite 3, Y = Finite 4, Height = Finite 12\<rparr>, None)))"
proof -
  have h1: "consistent (fresh_manager 2 None)" by (rule consistent_fresh)
  have h2: "(0::int) \<le> 1" by simp
  have h3: "1 < Capacity (fresh_manager 2 None)" by (simp add: Capacity_fresh)
  from Enable_Set_Get_roundtrip [OF h1 h2 h3, of "Finite 3" "Finite 4" "Finite 12"] h1 h2 h3 show ?thesis by simp
qed

text \<open>
  Claim C3. For every index \<open>i\<close> at or beyond the capacity, \<^verbatim>\<open>Get(i)\<close> and
  \<^verbatim>\<open>Set(i, x, y, h)\<close> fail with the out-of-range error, and the manager that \<^verbatim>\<open>Set\<close>
  leaves is the one it was given: no position and no flag has changed.
\<close>

theorem Get_Set_beyond_capacity:
  assumes "Capacity p \<le> i"
  shows "Get p i = Return (zeroPosition, Some (IndexOutOfRange i (Capacity p))) \<and>
         Set p i x y h = Return (p, Some (IndexOutOfRange i (Capacity p)))"
  using assms by (simp add: Get_def Set_def Capacity_def)

theorem Get_Set_beyond_capacity_witness:
  "Capacity (fresh_manager 2 None) \<le> 2 \<and>
   Get (fresh_manager 2 None) 2 = Return (zeroPosition, Some (IndexOutOfRange 2 2)) \<and>
   Set (fresh_manager 2 None) 2 (Finite 3) (Finite 4) (Finite 12) = Return (fresh_manager 2 None, Some (IndexOutOfRange 2 2))"
proof -
  have h: "Capacity (fresh_manager 2 None) \<le> 2" by (simp add: Capacity_fresh)
  from Get_Set_beyond_capacity [OF h, of "Finite 3" "Finite 4" "Finite 12"] h show ?thesis by (simp add: Capacity_fresh)
qed

text \<open>
  Claim C4, as stated: whenever \<open>i\<close> or \<open>j\<close> is out of range or disabled,
  \<^verbatim>\<open>Distance(i, j)\<close> returns the largest finite float. It fails where the other index is
  negative: in a fresh manager of one slot, index 1 is out of range, and
  \<^verbatim>\<open>Distance(1, -1)\<close> panics in the second \<^verbatim>\<open>Get\<close>.
\<close>

theorem Distance_negative_index_panics:
  "NewPositionManager 1 None = Return (fresh_manager 1 None) \<and>
   Capacity (fresh_manager 1 None) \<le> 1 \<and>
   Distance nan_arith (fresh_manager 1 None) 1 (- 1) = Panic IndexPanic \<and>
   Distance nan_arith (fresh_manager 1 None) 1 (- 1) \<noteq> Return MaxFloat64"
  by (simp add: NewPositionManager_def fresh_manager_def Capacity_def Distance_def Get_def
      slice_at_def)

text \<open>
  Claim C4, amended: for every pair of indices \<open>i\<close>, \<open>j\<close>, neither of them negative,
  where \<open>i\<close> or \<open>j\<close> is at or beyond the capacity or addresses a disabled node,
  \<^verbatim>\<open>Distance(i, j)\<close> returns the largest finite float, and neither an error nor a panic.
\<close>

theorem Distance_sentinel:
  assumes "consistent p" and "0 \<le> i" and "0 \<le> j"
    and "Capacity p \<le> i \<or> Capacity p \<le> j
           \<or> IsEnabled p i = Return False \<or> IsEnabled p j = Return False"
  shows "Distance m p i j = Return MaxFloat64"
proof -
  have gi: "\<exists>q e. Get p i = Return (q, e) \<and>
              (Capacity p \<le> i \<or> IsEnabled p i = Return False \<longrightarrow> e \<noteq> None)"
    using assms(1,2)
    by (auto simp add: Get_cases IsEnabled_def slice_at_def consistent_def Capacity_def)
  have gj: "\<exists>q e. Get p j = Return (q, e) \<and>
              (Capacity p \<le> j \<or> IsEnabled p j = Return False \<longrightarrow> e \<noteq> None)"
    using assms(1,3)
    by (auto simp add: Get_cases IsEnabled_def slice_at_def consistent_def Capacity_def)
  from gi gj assms(4) show ?thesis
    by (auto simp add: Distance_def)
qed

theorem Distance_sentinel_witness:
  "consistent (fresh_manager 2 None) \<and> (0::int) \<le> 5 \<and> (0::int) \<le> 1 \<and>
   Capacity (fresh_manager 2 None) \<le> 5 \<and>
   IsEnabled (fresh_manager 2 None) 1 = Return False \<and>
   Distance nan_arith (fresh_manager 2 None) 5 1 = Return MaxFloat64 \<and>
   Distance nan_arith (fresh_manager 2 None) 1 1 = Return MaxFloat64"
proof -
  have h1: "consistent (fresh_manager 2 None)" by (rule consistent_fresh)
  have h2: "(0::int) \<le> 5" and h3: "(0::int) \<le> 1" by simp_all
  have h4: "Capacity (fresh_manager 2 None) \<le> 5" by (simp add: Capacity_fresh)
  have h5: "IsEnabled (fresh_manager 2 None) 1 = Return False"
    by (simp add: IsEnabled_def slice_at_def fresh_manager_def)
  have a: "Distance nan_arith (fresh_manager 2 None) 5 1 = Return MaxFloat64"
    using h4 by (intro Distance_sentinel [OF h1 h2 h3]) blast
  have b: "Distance nan_arith (fresh_manager 2 None) 1 1 = Return MaxFloat64"
    using h5 by (intro Distance_sentinel [OF h1 h3 h3]) blast
  from h1 h2 h3 h4 h5 a b show ?thesis by blast
qed

text \<open>
  Claim C5: every address-based operation forwards the error of the index-based
  operation it calls. \<^verbatim>\<open>GetAddr\<close> does; \<^verbatim>\<open>SetAddr\<close> and \<^verbatim>\<open>SetPositionAddr\<close> call
  \<^verbatim>\<open>Set\<close> and \<^verbatim>\<open>SetPosition\<close> without assigning the result to \<^verbatim>\<open>err\<close>. In a fresh
  manager of one slot whose resolver maps \<open>''a''\<close> to node 0, that node is disabled:
  \<^verbatim>\<open>Set\<close> and \<^verbatim>\<open>GetAddr\<close> report it, the two setters by address return no error.
\<close>

theorem SetAddr_drops_Set_error:
  "Set (fresh_manager 1 (Some one_address)) 0 (Finite 1) (Finite 2) (Finite 3)
     = Return (fresh_manager 1 (Some one_address), Some (NodeDisabled 0)) \<and>
   SetAddr (fresh_manager 1 (Some one_address)) ''a'' (Finite 1) (Finite 2) (Finite 3)
     = Return (fresh_manager 1 (Some one_address), None) \<and>
   SetPositionAddr (fresh_manager 1 (Some one_address)) ''a'' (Some \<lparr>X = Finite 1, Y = Finite 2, Height = Finite 3\<rparr>)
     = Return (fresh_manager 1 (Some one_address), None) \<and>
   GetAddr (fresh_manager 1 (Some one_address)) ''a'' = Return (zeroPosition, Some (NodeDisabled 0))"
  by (simp add: SetAddr_def SetPositionAddr_def SetPosition_def GetAddr_def Get_def Set_def
      slice_at_def fresh_manager_def one_address_def)

text \<open>
  Claim C6. On a fresh manager of at least four slots with registered subscribers,
  \<^verbatim>\<open>Enable(3)\<close> and then \<^verbatim>\<open>Enable(1)\<close> send to every subscriber, in registration
  order, first the list \<open>[3]\<close> and then the list \<open>[1, 3]\<close>. And whatever the state and
  the index, every list that \<^verbatim>\<open>Enable\<close> or \<^verbatim>\<open>Disable\<close> sends is strictly ascending.
\<close>

theorem Enable_3_then_1_notifications:
  assumes "4 \<le> size'" and "NewPositionManager size' ar = Return p0"
  shows "(case Enable (foldl RegisterEnabledChanged p0 cs) 3 of
            Panic k \<Rightarrow> False
          | Return (p1, sends1) \<Rightarrow>
              sends1 = map (\<lambda>c. (c, [3])) cs \<and>
              (case Enable p1 1 of
                 Panic k \<Rightarrow> False
               | Return (p2, sends2) \<Rightarrow> sends2 = map (\<lambda>c. (c, [1, 3])) cs)) \<and>
         (\<forall>p i p' sends c l.
            (Enable p i = Return (p', sends) \<or> Disable p i = Return (p', sends))
              \<and> (c, l) \<in> set sends
            \<longrightarrow> sorted_wrt (<) l)"
proof -
  obtain k where k: "nat size' = Suc (Suc (Suc (Suc k)))"
    using assms(1) four_le by blast
  define bs where "bs = False # False # False # False # replicate k False"
  have lbs: "length bs = nat size'" by (simp add: bs_def k)
  have p0: "isEnabled p0 = bs" "enabledChanged p0 = []"
    using assms by (auto simp add: NewPositionManager_def bs_def k split: if_splits)
  define p where "p = foldl RegisterEnabledChanged p0 cs"
  have p: "isEnabled p = bs" "enabledChanged p = cs"
    by (simp_all add: p_def foldl_Register p0)
  define p1 where "p1 = p\<lparr>isEnabled := bs[nat 3 := True]\<rparr>"
  define p2 where "p2 = p1\<lparr>isEnabled := bs[nat 3 := True, nat 1 := True]\<rparr>"
  have "isEnabled p1 = (False # False # False # False # replicate k False)[nat 3 := True]"
    by (simp add: p1_def bs_def)
  then have c1: "calculateEnabled p1 = [3]"
    unfolding calculateEnabled_def by (simp only: calculateEnabled_only_3)
  have "isEnabled p2
          = (False # False # False # False # replicate k False)[nat 3 := True, nat 1 := True]"
    by (simp add: p2_def bs_def)
  then have c2: "calculateEnabled p2 = [1, 3]"
    unfolding calculateEnabled_def by (simp only: calculateEnabled_1_and_3)
  have in3: "slice_at bs 3 = Return (bs ! nat 3)"
    and in1: "slice_at (bs[nat 3 := True]) 1 = Return (bs[nat 3 := True] ! nat 1)"
    using assms(1) lbs by (simp_all add: slice_at_def)
  have e1: "Enable p 3 = Return (p1, map (\<lambda>c. (c, [3])) cs)"
  proof -
    have q: "p\<lparr>isEnabled := bs[nat 3 := True]\<rparr> = p1" by (simp only: p1_def)
    have ec: "enabledChanged p1 = cs" by (simp add: p1_def p)
    show ?thesis unfolding Enable_def p(1) in3
      by (simp only: outcome.case Let_def q notifyEnabledChanged_def c1 ec)
  qed
  have e2: "Enable p1 1 = Return (p2, map (\<lambda>c. (c, [1, 3])) cs)"
  proof -
    have i1: "isEnabled p1 = bs[nat 3 := True]" by (simp add: p1_def)
    have q: "p1\<lparr>isEnabled := bs[nat 3 := True, nat 1 := True]\<rparr> = p2" by (simp only: p2_def)
    have ec: "enabledChanged p2 = cs" by (simp add: p2_def p1_def p)
    show ?thesis unfolding Enable_def i1 in1
      by (simp only: outcome.case Let_def q notifyEnabledChanged_def c2 ec)
  qed
  have first: "case Enable (foldl RegisterEnabledChanged p0 cs) 3 of
            Panic k \<Rightarrow> False
          | Return (p1, sends1) \<Rightarrow>
              sends1 = map (\<lambda>c. (c, [3])) cs \<and>
              (case Enable p1 1 of
                 Panic k \<Rightarrow> False
               | Return (p2, sends2) \<Rightarrow> sends2 = map (\<lambda>c. (c, [1, 3])) cs)"
    using e1 e2 by (simp add: p_def)
  have second: "\<forall>p i p' sends c l.
            (Enable p i = Return (p', sends) \<or> Disable p i = Return (p', sends))
              \<and> (c, l) \<in> set sends
            \<longrightarrow> sorted_wrt (<) l"
    by (auto simp add: Enable_def Disable_def Let_def notifyEnabledChanged_def
        calculateEnabled_sorted split: outcome.splits)
  from first second show ?thesis by blast
qed

theorem Enable_3_then_1_notifications_witness:
  "(4::int) \<le> 4 \<and> NewPositionManager 4 None = Return (fresh_manager 4 None) \<and>
   (case Enable (foldl RegisterEnabledChanged (fresh_manager 4 None) [7, 9]) 3 of
      Panic k \<Rightarrow> False
    | Return (p1, sends1) \<Rightarrow>
        sends1 = [(7, [3]), (9, [3])] \<and>
        (case Enable p1 1 of
           Panic k \<Rightarrow> False
         | Return (p2, sends2) \<Rightarrow> sends2 = [(7, [1, 3]), (9, [1, 3])])) \<and>
   Enable three_of_four 1
     = Return (three_of_four\<lparr>isEnabled := [False, True, False, True]\<rparr>,
               [(7, [1, 3]), (9, [1, 3])]) \<and>
   (9, [1, 3]) \<in> set [(7, [1, 3]), (9, [1, 3::int])] \<and>
   sorted_wrt (<) [1, 3::int]"
proof -
  have h1: "(4::int) \<le> 4" by simp
  have h2: "NewPositionManager 4 None = Return (fresh_manager 4 None)"
    using New_fresh [of 4 None] by simp
  note r = Enable_3_then_1_notifications [OF h1 h2, of "[7, 9]"]
  from r
  have "case Enable (foldl RegisterEnabledChanged (fresh_manager 4 None) [7, 9]) 3 of
          Panic k \<Rightarrow> False
        | Return (p1, sends1) \<Rightarrow>
            sends1 = map (\<lambda>c. (c, [3])) [7, 9] \<and>
            (case Enable p1 1 of
               Panic k \<Rightarrow> False
             | Return (p2, sends2) \<Rightarrow> sends2 = map (\<lambda>c. (c, [1, 3])) [7, 9])"
    by (rule conjunct1)
  then have a: "case Enable (foldl RegisterEnabledChanged (fresh_manager 4 None) [7, 9]) 3 of
          Panic k \<Rightarrow> False
        | Return (p1, sends1) \<Rightarrow>
            sends1 = [(7, [3]), (9, [3])] \<and>
            (case Enable p1 1 of
               Panic k \<Rightarrow> False
             | Return (p2, sends2) \<Rightarrow> sends2 = [(7, [1, 3]), (9, [1, 3])])"
    by (simp only: list.map)
  have h3: "Enable three_of_four 1
     = Return (three_of_four\<lparr>isEnabled := [False, True, False, True]\<rparr>,
               [(7, [1, 3]), (9, [1, 3])])"
    by (simp add: Enable_def slice_at_def three_of_four_def Let_def notifyEnabledChanged_def
        calculateEnabled_def)
  have h4: "(9, [1, 3]) \<in> set [(7, [1, 3]), (9, [1, 3::int])]" by simp
  from r h3 h4 have b: "sorted_wrt (<) [1, 3::int]" by blast
  from h1 h2 a h3 h4 b show ?thesis by blast
qed

text \<open>
  Claim C7, that \<^verbatim>\<open>Distance(i, j)\<close> equals \<^verbatim>\<open>Distance(j, i)\<close> for enabled nodes,
  compares two results of \<^verbatim>\<open>float64\<close> arithmetic. The arithmetic is a parameter of
  \<^verbatim>\<open>Distance\<close> of which nothing is known here, so the claim has no statement in this
  development.
\<close>

text \<open>
  Claim C8. \<^verbatim>\<open>Enable\<close> and \<^verbatim>\<open>Disable\<close> validate nothing: for every index at or beyond
  the capacity they panic on the slice access and return no error.
\<close>

theorem Enable_Disable_beyond_capacity_panic:
  assumes "consistent p" and "Capacity p \<le> i"
  shows "Enable p i = Panic IndexPanic \<and> Disable p i = Panic IndexPanic"
  using assms by (simp add: Enable_def Disable_def consistent_def Capacity_def slice_at_def)

theorem Enable_Disable_beyond_capacity_panic_witness:
  "consistent (fresh_manager 2 None) \<and> Capacity (fresh_manager 2 None) \<le> 2 \<and>
   Enable (fresh_manager 2 None) 2 = Panic IndexPanic \<and>
   Disable (fresh_manager 2 None) 2 = Panic IndexPanic"
proof -
  have h1: "consistent (fresh_manager 2 None)" by (rule consistent_fresh)
  have h2: "Capacity (fresh_manager 2 None) \<le> 2" by (simp add: Capacity_fresh)
  from Enable_Disable_beyond_capacity_panic [OF h1 h2] h1 h2 show ?thesis by simp
qed

text \<open>
  Claim C9. \<^verbatim>\<open>Get\<close> and \<^verbatim>\<open>Set\<close> check the upper bound only: a negative index is not
  at or beyond the capacity, so it passes the check, and the slice access panics; no
  out-of-range error is returned.
\<close>

theorem Get_Set_negative_index_panic:
  assumes "i < 0"
  shows "\<not> Capacity p \<le> i \<and> Get p i = Panic IndexPanic \<and> Set p i x y h = Panic IndexPanic"
  using assms by (simp add: Get_def Set_def Capacity_def slice_at_def)

theorem Get_Set_negative_index_panic_witness:
  "(- 1::int) < 0 \<and> \<not> Capacity (fresh_manager 2 None) \<le> - 1 \<and>
   Get (fresh_manager 2 None) (- 1) = Panic IndexPanic \<and>
   Set (fresh_manager 2 None) (- 1) (Finite 3) (Finite 4) (Finite 12) = Panic IndexPanic"
proof -
  have h: "(- 1::int) < 0" by simp
  from Get_Set_negative_index_panic [OF h, of "fresh_manager 2 None" "Finite 3" "Finite 4" "Finite 12"] h
  show ?thesis by simp
qed

text \<open>
  Claim C10, as stated: \<^verbatim>\<open>SetPosition(index, pos)\<close> returns a nil error for every index
  and position. It fails at a negative index, where the call returns nothing: on a fresh
  manager of one slot \<^verbatim>\<open>SetPosition(-1, pos)\<close> panics inside \<^verbatim>\<open>Set\<close>.
\<close>

theorem SetPosition_negative_index_panics:
  "NewPositionManager 1 None = Return (fresh_manager 1 None) \<and>
   SetPosition (fresh_manager 1 None) (- 1) (Some \<lparr>X = Finite 1, Y = Finite 2, Height = Finite 3\<rparr>)
     = Panic IndexPanic \<and>
   SetPosition (fresh_manager 1 None) (- 1) (Some \<lparr>X = Finite 1, Y = Finite 2, Height = Finite 3\<rparr>)
     \<noteq> Return (fresh_manager 1 None, None)"
  by (simp add: NewPositionManager_def fresh_manager_def SetPosition_def Set_def slice_at_def)

text \<open>
  Claim C10, amended: for every index that is not negative and every position,
  \<^verbatim>\<open>SetPosition(index, pos)\<close> returns a nil error, also when the \<^verbatim>\<open>Set\<close> it calls
  fails because the index is at or beyond the capacity or the node is disabled; that
  failure is dropped and the manager is unchanged.
\<close>

theorem SetPosition_returns_nil:
  assumes "consistent p" and "0 \<le> i"
  shows "(case SetPosition p i (Some q) of Panic k \<Rightarrow> False | Return (p', err) \<Rightarrow> err = None) \<and>
         (Capacity p \<le> i \<longrightarrow>
            Set p i (X q) (Y q) (Height q) = Return (p, Some (IndexOutOfRange i (Capacity p))) \<and>
            SetPosition p i (Some q) = Return (p, None)) \<and>
         (IsEnabled p i = Return False \<longrightarrow>
            Set p i (X q) (Y q) (Height q) = Return (p, Some (NodeDisabled i)) \<and>
            SetPosition p i (Some q) = Return (p, None))"
  using assms
  by (auto simp add: SetPosition_def Set_cases IsEnabled_def slice_at_def consistent_def
      Capacity_def split: if_splits)

theorem SetPosition_returns_nil_witness:
  "consistent (fresh_manager 2 None) \<and> (0::int) \<le> 2 \<and> (0::int) \<le> 1 \<and>
   Capacity (fresh_manager 2 None) \<le> 2 \<and>
   Set (fresh_manager 2 None) 2 (Finite 3) (Finite 4) (Finite 12) = Return (fresh_manager 2 None, Some (IndexOutOfRange 2 2)) \<and>
   SetPosition (fresh_manager 2 None) 2 (Some \<lparr>X = Finite 3, Y = Finite 4, Height = Finite 12\<rparr>)
     = Return (fresh_manager 2 None, None) \<and>
   IsEnabled (fresh_manager 2 None) 1 = Return False \<and>
   Set (fresh_manager 2 None) 1 (Finite 3) (Finite 4) (Finite 12) = Return (fresh_manager 2 None, Some (NodeDisabled 1)) \<and>
   SetPosition (fresh_manager 2 None) 1 (Some \<lparr>X = Finite 3, Y = Finite 4, Height = Finite 12\<rparr>)
     = Return (fresh_manager 2 None, None)"
proof -
  have h1: "consistent (fresh_manager 2 None)" by (rule consistent_fresh)
  have h2: "(0::int) \<le> 2" and h2': "(0::int) \<le> 1" by simp_all
  have h3: "Capacity (fresh_manager 2 None) \<le> 2" by (simp add: Capacity_fresh)
  have h4: "IsEnabled (fresh_manager 2 None) 1 = Return False"
    by (simp add: IsEnabled_def slice_at_def fresh_manager_def)
  from SetPosition_returns_nil [OF h1 h2, of "\<lparr>X = Finite 3, Y = Finite 4, Height = Finite 12\<rparr>"] h3
  have a: "Set (fresh_manager 2 None) 2 (Finite 3) (Finite 4) (Finite 12)
             = Return (fresh_manager 2 None, Some (IndexOutOfRange 2 2)) \<and>
           SetPosition (fresh_manager 2 None) 2 (Some \<lparr>X = Finite 3, Y = Finite 4, Height = Finite 12\<rparr>)
             = Return (fresh_manager 2 None, None)"
    by (simp add: Capacity_fresh)
  from SetPosition_returns_nil [OF h1 h2', of "\<lparr>X = Finite 3, Y = Finite 4, Height = Finite 12\<rparr>"] h4
  have b: "Set (fresh_manager 2 None) 1 (Finite 3) (Finite 4) (Finite 12)
             = Return (fresh_manager 2 None, Some (NodeDisabled 1)) \<and>
           SetPosition (fresh_manager 2 None) 1 (Some \<lparr>X = Finite 3, Y = Finite 4, Height = Finite 12\<rparr>)
             = Return (fresh_manager 2 None, None)"
    by simp
  from h1 h2 h2' h3 h4 a b show ?thesis by blast
qed

end
